theory Spec2Isabelle
  imports Complex_Main "HOL-Library.Multiset" "HOL-Library.AList"
    "HOL-Library.List_Lexorder" "HOL-Library.Char_ord"
begin

section \<open>Data model\<close>

text \<open>
  The task tracker keeps its rows in a relational store reached through a query
  builder. The tables come from the migration script (\<^verbatim>\<open>003_create_tasks_table\<close> and
  its siblings); the routes come from \<^verbatim>\<open>routes/tasks.js\<close> and the analytics router.

  Conventions of the embedding:
  \<^item> identifiers (\<^verbatim>\<open>UUID\<close> columns) are natural numbers: only equality is ever used on them;
  \<^item> timestamps are integers, milliseconds since the epoch, the resolution of a
    JavaScript \<^verbatim>\<open>Date\<close>; the server clock is taken to run on UTC;
  \<^item> JavaScript numbers are exact: counts are naturals and quotients are rationals;
  \<^item> \<^verbatim>\<open>status\<close> and \<^verbatim>\<open>priority\<close> are the enumerations the column checks and the
    validation schemas admit;
  \<^item> a table is the list of its rows in insertion order.
\<close>

type_synonym uuid = nat
type_synonym timestamp = int

datatype status = Todo | InProgress | Completed
datatype priority = Low | Medium | High

record task =
  task_id :: uuid
  title :: string
  description :: "string option"
  status :: status
  priority :: priority
  due_date :: "timestamp option"
  completed_at :: "timestamp option"
  category_id :: "uuid option"
  created_by :: uuid
  assigned_to :: "uuid option"
  created_at :: timestamp
  updated_at :: timestamp

record category =
  cat_id :: uuid
  cat_name :: string
  cat_color :: string
  cat_user_id :: uuid

record db =
  users :: "uuid list"
  categories :: "category list"
  tasks :: "task list"

text \<open>What a route sends back: a success with its HTTP code and payload, or a failure
  with its HTTP code and the \<^verbatim>\<open>error\<close> string of the envelope.\<close>

datatype 'a response = Success nat 'a | Failure nat string

text \<open>Errors of the store that the routes can observe: \<^verbatim>\<open>PGRST116\<close> is raised by
  \<^verbatim>\<open>.single()\<close> when the answer is not exactly one row, \<^verbatim>\<open>23503\<close> is a violated
  foreign key and \<^verbatim>\<open>23505\<close> a violated uniqueness constraint.\<close>

datatype db_error = PGRST116 | FK_23503 | Unique_23505

section \<open>The store\<close>

text \<open>The row filter \<^verbatim>\<open>.or(`created_by.eq.${id},assigned_to.eq.${id}`)\<close>.\<close>

definition visible :: "uuid \<Rightarrow> task \<Rightarrow> bool" where
  "visible caller t = (created_by t = caller \<or> assigned_to t = Some caller)"

text \<open>The store answers every well-formed request: an outage of the service is outside the
  embedding, and so are the branches of the routes that only such an outage reaches
  (the 500 answers of the reading routes). The routes reach the store through one shared
  client and select the rows themselves, by the filters written out below; the
  row-level policies of the migration are not modelled.

  \<^verbatim>\<open>.single()\<close>: exactly one row, or \<^verbatim>\<open>PGRST116\<close>.\<close>

fun single :: "'a list \<Rightarrow> db_error + 'a" where
  "single [x] = Inr x"
| "single _ = Inl PGRST116"

text \<open>The payload of an \<^verbatim>\<open>update\<close>: the columns it names. \<^verbatim>\<open>assigned_to\<close> can be set
  to \<^verbatim>\<open>null\<close> by the assignment route, hence the nested option.\<close>

record patch =
  p_title :: "string option"
  p_description :: "string option"
  p_status :: "status option"
  p_priority :: "priority option"
  p_due_date :: "timestamp option"
  p_category_id :: "uuid option"
  p_assigned_to :: "uuid option option"

definition empty_patch :: patch where
  "empty_patch = \<lparr>p_title = None, p_description = None, p_status = None, p_priority = None,
     p_due_date = None, p_category_id = None, p_assigned_to = None\<rparr>"

definition apply_patch :: "patch \<Rightarrow> task \<Rightarrow> task" where
  "apply_patch p t =
     t\<lparr>title := (case p_title p of None \<Rightarrow> title t | Some v \<Rightarrow> v),
       description := (case p_description p of None \<Rightarrow> description t | Some v \<Rightarrow> Some v),
       status := (case p_status p of None \<Rightarrow> status t | Some v \<Rightarrow> v),
       priority := (case p_priority p of None \<Rightarrow> priority t | Some v \<Rightarrow> v),
       due_date := (case p_due_date p of None \<Rightarrow> due_date t | Some v \<Rightarrow> Some v),
       category_id := (case p_category_id p of None \<Rightarrow> category_id t | Some v \<Rightarrow> Some v),
       assigned_to := (case p_assigned_to p of None \<Rightarrow> assigned_to t | Some v \<Rightarrow> v)\<rparr>"

text \<open>The trigger function \<^verbatim>\<open>update_updated_at_column\<close>.\<close>

definition update_updated_at_column :: "timestamp \<Rightarrow> task \<Rightarrow> task" where
  "update_updated_at_column now new = new\<lparr>updated_at := now\<rparr>"

text \<open>The trigger function \<^verbatim>\<open>set_completed_at\<close>, over the \<^verbatim>\<open>OLD\<close> and \<^verbatim>\<open>NEW\<close> rows:
  \<^verbatim>\<open>
  IF NEW.status = 'completed' AND OLD.status != 'completed' THEN
    NEW.completed_at = NOW();
  ELSIF NEW.status != 'completed' THEN
    NEW.completed_at = NULL;
  END IF;
  \<close>\<close>

definition set_completed_at :: "timestamp \<Rightarrow> task \<Rightarrow> task \<Rightarrow> task" where
  "set_completed_at now old new =
     (if status new = Completed \<and> status old \<noteq> Completed then new\<lparr>completed_at := Some now\<rparr>
      else if status new \<noteq> Completed then new\<lparr>completed_at := None\<rparr>
      else new)"

text \<open>One row going through \<^verbatim>\<open>UPDATE tasks SET ...\<close>: the payload, then both
  \<^verbatim>\<open>BEFORE UPDATE\<close> triggers (\<^verbatim>\<open>set_task_completed_at\<close>, \<^verbatim>\<open>update_tasks_updated_at\<close>).\<close>

definition update_row :: "timestamp \<Rightarrow> patch \<Rightarrow> task \<Rightarrow> task" where
  "update_row now p old = update_updated_at_column now (set_completed_at now old (apply_patch p old))"

text \<open>The foreign keys of a task row: \<^verbatim>\<open>category_id REFERENCES categories(id)\<close>,
  \<^verbatim>\<open>created_by REFERENCES auth.users(id)\<close>, \<^verbatim>\<open>assigned_to REFERENCES auth.users(id)\<close>.
  An insertion checks all three on the new row; an update checks the references its
  payload writes.\<close>

definition fk_ok :: "db \<Rightarrow> task \<Rightarrow> bool" where
  "fk_ok d t =
     ((case category_id t of None \<Rightarrow> True | Some c \<Rightarrow> c \<in> set (map cat_id (categories d))) \<and>
      created_by t \<in> set (users d) \<and>
      (case assigned_to t of None \<Rightarrow> True | Some u \<Rightarrow> u \<in> set (users d)))"

definition fk_patch_ok :: "db \<Rightarrow> patch \<Rightarrow> bool" where
  "fk_patch_ok d p =
     ((case p_category_id p of None \<Rightarrow> True | Some c \<Rightarrow> c \<in> set (map cat_id (categories d))) \<and>
      (case p_assigned_to p of Some (Some u) \<Rightarrow> u \<in> set (users d) | _ \<Rightarrow> True))"

text \<open>\<^verbatim>\<open>from('tasks').update(p).<filters>.select().single()\<close>. The rows the filters
  select are rewritten; a violated foreign key aborts the statement; \<^verbatim>\<open>.single()\<close>
  wants exactly one rewritten row and otherwise the request fails as a whole, leaving
  the table as it was. A payload that names no column touches no row.\<close>

definition db_update_single :: "timestamp \<Rightarrow> patch \<Rightarrow> (task \<Rightarrow> bool) \<Rightarrow> db \<Rightarrow> db \<times> (db_error + task)" where
  "db_update_single now p sel d =
     (let hit = (if p = empty_patch then [] else filter sel (tasks d))
      in if hit \<noteq> [] \<and> \<not> fk_patch_ok d p then (d, Inl FK_23503)
         else (case single (map (update_row now p) hit) of
                 Inl e \<Rightarrow> (d, Inl e)
               | Inr t \<Rightarrow> (d\<lparr>tasks := map (\<lambda>r. if sel r then update_row now p r else r) (tasks d)\<rparr>, Inr t)))"

text \<open>\<^verbatim>\<open>from('tasks').insert(row).select().single()\<close>. There is no \<^verbatim>\<open>BEFORE INSERT\<close>
  trigger on the table: the row is stored with the column defaults (\<^verbatim>\<open>created_at\<close> and
  \<^verbatim>\<open>updated_at\<close> are \<^verbatim>\<open>NOW()\<close>, \<^verbatim>\<open>completed_at\<close> has no default). The primary key
  \<^verbatim>\<open>gen_random_uuid()\<close> is the argument \<open>new_id\<close>.\<close>

record task_data =
  d_title :: string
  d_description :: "string option"
  d_status :: status
  d_priority :: priority
  d_due_date :: "timestamp option"
  d_category_id :: "uuid option"
  d_assigned_to :: "uuid option"
  d_created_by :: uuid

definition new_row :: "uuid \<Rightarrow> timestamp \<Rightarrow> task_data \<Rightarrow> task" where
  "new_row new_id now td =
     \<lparr>task_id = new_id, title = d_title td, description = d_description td,
      status = d_status td, priority = d_priority td, due_date = d_due_date td,
      completed_at = None, category_id = d_category_id td, created_by = d_created_by td,
      assigned_to = d_assigned_to td, created_at = now, updated_at = now\<rparr>"

definition db_insert_single :: "uuid \<Rightarrow> timestamp \<Rightarrow> task_data \<Rightarrow> db \<Rightarrow> db \<times> (db_error + task)" where
  "db_insert_single new_id now td d =
     (let row = new_row new_id now td
      in if new_id \<in> set (map task_id (tasks d)) then (d, Inl Unique_23505)
         else if \<not> fk_ok d row then (d, Inl FK_23503)
         else (d\<lparr>tasks := tasks d @ [row]\<rparr>, Inr row))"

text \<open>The ownership probe of a category:
  \<^verbatim>\<open>from('categories').select('id').eq('id', c).eq('user_id', caller).single()\<close>.\<close>

definition category_owned :: "uuid \<Rightarrow> uuid \<Rightarrow> db \<Rightarrow> bool" where
  "category_owned caller c d =
     (case single (filter (\<lambda>k. cat_id k = c \<and> cat_user_id k = caller) (categories d)) of
        Inl _ \<Rightarrow> False | Inr _ \<Rightarrow> True)"

section \<open>Validation schemas\<close>

text \<open>The request body of \<^verbatim>\<open>POST /tasks\<close> and \<^verbatim>\<open>PUT /tasks/:id\<close>, field by field; an
  absent field is \<open>None\<close>. The schemas admit no other key, so a body cannot carry
  \<^verbatim>\<open>completed_at\<close>.\<close>

record task_body =
  b_title :: "string option"
  b_description :: "string option"
  b_status :: "status option"
  b_priority :: "priority option"
  b_due_date :: "timestamp option"
  b_category_id :: "uuid option"
  b_assigned_to :: "uuid option"

definition string_between :: "nat \<Rightarrow> nat \<Rightarrow> string \<Rightarrow> bool" where
  "string_between lo hi s = (lo \<le> length s \<and> length s \<le> hi)"

definition optional_ok :: "('a \<Rightarrow> bool) \<Rightarrow> 'a option \<Rightarrow> bool" where
  "optional_ok P v = (case v of None \<Rightarrow> True | Some x \<Rightarrow> P x)"

text \<open>\<^verbatim>\<open>taskSchemas.create\<close>: the title is required, one to 200 characters; the
  description has at most 1000 (and, as every \<^verbatim>\<open>Joi.string()\<close>, at least one); status
  defaults to \<^verbatim>\<open>todo\<close> and priority to \<^verbatim>\<open>medium\<close>. The caller becomes
  \<^verbatim>\<open>created_by\<close> in the route.\<close>

definition validate_create :: "task_body \<Rightarrow> uuid \<Rightarrow> task_data option" where
  "validate_create b caller =
     (case b_title b of
        None \<Rightarrow> None
      | Some ti \<Rightarrow>
          if string_between 1 200 ti \<and> optional_ok (string_between 1 1000) (b_description b)
          then Some \<lparr>d_title = ti, d_description = b_description b,
                 d_status = (case b_status b of None \<Rightarrow> Todo | Some s \<Rightarrow> s),
                 d_priority = (case b_priority b of None \<Rightarrow> Medium | Some p \<Rightarrow> p),
                 d_due_date = b_due_date b, d_category_id = b_category_id b,
                 d_assigned_to = b_assigned_to b, d_created_by = caller\<rparr>
          else None)"

text \<open>\<^verbatim>\<open>taskSchemas.update\<close>: every field optional, same bounds.\<close>

definition validate_update :: "task_body \<Rightarrow> patch option" where
  "validate_update b =
     (if optional_ok (string_between 1 200) (b_title b) \<and>
         optional_ok (string_between 1 1000) (b_description b)
      then Some \<lparr>p_title = b_title b, p_description = b_description b, p_status = b_status b,
             p_priority = b_priority b, p_due_date = b_due_date b,
             p_category_id = b_category_id b,
             p_assigned_to = map_option Some (b_assigned_to b)\<rparr>
      else None)"

section \<open>Task routes\<close>

text \<open>\<^verbatim>\<open>GET /tasks/:id\<close>.\<close>

definition get_task :: "uuid \<Rightarrow> uuid \<Rightarrow> db \<Rightarrow> task response" where
  "get_task caller tid d =
     (case single (filter (\<lambda>t. task_id t = tid \<and> visible caller t) (tasks d)) of
        Inl _ \<Rightarrow> Failure 404 ''Task not found''
      | Inr t \<Rightarrow> Success 200 t)"

text \<open>\<^verbatim>\<open>POST /tasks\<close>.\<close>

definition create_task :: "uuid \<Rightarrow> task_body \<Rightarrow> uuid \<Rightarrow> timestamp \<Rightarrow> db \<Rightarrow> db \<times> task response" where
  "create_task caller body new_id now d =
     (case validate_create body caller of
        None \<Rightarrow> (d, Failure 400 ''Validation error'')
      | Some td \<Rightarrow>
          if (case d_category_id td of None \<Rightarrow> False | Some c \<Rightarrow> \<not> category_owned caller c d)
          then (d, Failure 400 ''Invalid category ID'')
          else (case db_insert_single new_id now td d of
                  (d', Inl _) \<Rightarrow> (d', Failure 500 ''Failed to create task'')
                | (d', Inr t) \<Rightarrow> (d', Success 201 t)))"

text \<open>\<^verbatim>\<open>PUT /tasks/:id\<close>. The row filter of the update is the owner-or-assignee one.\<close>

definition update_task :: "uuid \<Rightarrow> uuid \<Rightarrow> task_body \<Rightarrow> timestamp \<Rightarrow> db \<Rightarrow> db \<times> task response" where
  "update_task caller tid body now d =
     (case validate_update body of
        None \<Rightarrow> (d, Failure 400 ''Validation error'')
      | Some p \<Rightarrow>
          if (case p_category_id p of None \<Rightarrow> False | Some c \<Rightarrow> \<not> category_owned caller c d)
          then (d, Failure 400 ''Invalid category ID'')
          else (case db_update_single now p (\<lambda>t. task_id t = tid \<and> visible caller t) d of
                  (d', Inl PGRST116) \<Rightarrow> (d', Failure 404 ''Task not found'')
                | (d', Inl _) \<Rightarrow> (d', Failure 500 ''Failed to update task'')
                | (d', Inr t) \<Rightarrow> (d', Success 200 t)))"

text \<open>\<^verbatim>\<open>DELETE /tasks/:id\<close>: a probe restricted to the creator, then the deletion
  under the same filter.\<close>

definition delete_task :: "uuid \<Rightarrow> uuid \<Rightarrow> db \<Rightarrow> db \<times> unit response" where
  "delete_task caller tid d =
     (case single (filter (\<lambda>t. task_id t = tid \<and> created_by t = caller) (tasks d)) of
        Inl _ \<Rightarrow> (d, Failure 404 ''Task not found or insufficient permissions'')
      | Inr _ \<Rightarrow>
          (d\<lparr>tasks := filter (\<lambda>t. \<not> (task_id t = tid \<and> created_by t = caller)) (tasks d)\<rparr>,
           Success 200 ()))"

text \<open>\<^verbatim>\<open>PATCH /tasks/:id/assign\<close>: the body's \<^verbatim>\<open>assigned_to\<close> (a user id or
  \<^verbatim>\<open>null\<close>) goes to the store unchecked, under the creator-only filter; any error of
  the store is answered 404.\<close>

definition assign_task :: "uuid \<Rightarrow> uuid \<Rightarrow> uuid option \<Rightarrow> timestamp \<Rightarrow> db \<Rightarrow> db \<times> task response" where
  "assign_task caller tid assignee now d =
     (case db_update_single now (empty_patch\<lparr>p_assigned_to := Some assignee\<rparr>)
             (\<lambda>t. task_id t = tid \<and> created_by t = caller) d of
        (d', Inl _) \<Rightarrow> (d', Failure 404 ''Task not found or insufficient permissions'')
      | (d', Inr t) \<Rightarrow> (d', Success 200 t))"

text \<open>\<^verbatim>\<open>PATCH /tasks/:id/status\<close>: the body's \<^verbatim>\<open>status\<close> is a raw string, checked
  against the three names before the store is asked.\<close>

definition parse_status :: "string \<Rightarrow> status option" where
  "parse_status s =
     (if s = ''todo'' then Some Todo
      else if s = ''in_progress'' then Some InProgress
      else if s = ''completed'' then Some Completed
      else None)"

definition set_status :: "uuid \<Rightarrow> uuid \<Rightarrow> string \<Rightarrow> timestamp \<Rightarrow> db \<Rightarrow> db \<times> task response" where
  "set_status caller tid raw now d =
     (case parse_status raw of
        None \<Rightarrow> (d, Failure 400 ''Invalid status value'')
      | Some s \<Rightarrow>
          (case db_update_single now (empty_patch\<lparr>p_status := Some s\<rparr>)
                  (\<lambda>t. task_id t = tid \<and> visible caller t) d of
             (d', Inl _) \<Rightarrow> (d', Failure 404 ''Task not found or insufficient permissions'')
           | (d', Inr t) \<Rightarrow> (d', Success 200 t)))"

text \<open>The invariant the status engine is after, for one row.\<close>

definition completion_consistent :: "task \<Rightarrow> bool" where
  "completion_consistent t = (completed_at t \<noteq> None \<longleftrightarrow> status t = Completed)"


section \<open>Listing tasks\<close>

text \<open>The query string of \<^verbatim>\<open>GET /tasks\<close> as \<^verbatim>\<open>taskSchemas.query\<close> reads it; an absent
  parameter is \<open>None\<close>.\<close>

datatype sort_field = By_created_at | By_updated_at | By_due_date | By_priority | By_title
datatype sort_dir = Asc | Desc

record raw_query =
  q_status :: "status option"
  q_priority :: "priority option"
  q_category_id :: "uuid option"
  q_assigned_to :: "uuid option"
  q_due_before :: "timestamp option"
  q_due_after :: "timestamp option"
  q_page :: "int option"
  q_limit :: "int option"
  q_sort_by :: "sort_field option"
  q_sort_order :: "sort_dir option"

record task_query =
  v_status :: "status option"
  v_priority :: "priority option"
  v_category_id :: "uuid option"
  v_assigned_to :: "uuid option"
  v_due_before :: "timestamp option"
  v_due_after :: "timestamp option"
  v_page :: int
  v_limit :: int
  v_sort_by :: sort_field
  v_sort_order :: sort_dir

text \<open>\<^verbatim>\<open>page: Joi.number().integer().min(1).default(1)\<close>,
  \<^verbatim>\<open>limit: Joi.number().integer().min(1).max(100).default(10)\<close>,
  \<^verbatim>\<open>sort_by\<close> defaults to \<^verbatim>\<open>created_at\<close> and \<^verbatim>\<open>sort_order\<close> to \<^verbatim>\<open>desc\<close>.\<close>

definition validate_query :: "raw_query \<Rightarrow> task_query option" where
  "validate_query r =
     (if optional_ok (\<lambda>p. 1 \<le> p) (q_page r) \<and> optional_ok (\<lambda>l. 1 \<le> l \<and> l \<le> 100) (q_limit r)
      then Some \<lparr>v_status = q_status r, v_priority = q_priority r,
             v_category_id = q_category_id r, v_assigned_to = q_assigned_to r,
             v_due_before = q_due_before r, v_due_after = q_due_after r,
             v_page = (case q_page r of None \<Rightarrow> 1 | Some p \<Rightarrow> p),
             v_limit = (case q_limit r of None \<Rightarrow> 10 | Some l \<Rightarrow> l),
             v_sort_by = (case q_sort_by r of None \<Rightarrow> By_created_at | Some f \<Rightarrow> f),
             v_sort_order = (case q_sort_order r of None \<Rightarrow> Desc | Some so \<Rightarrow> so)\<rparr>
      else None)"



fun nulls_last_le :: "int option \<Rightarrow> int option \<Rightarrow> bool" where
  "nulls_last_le _ None = True"
| "nulls_last_le None (Some _) = False"
| "nulls_last_le (Some x) (Some y) = (x \<le> y)"



text \<open>What the store may answer to an \<^verbatim>\<open>ORDER BY\<close>: the selected rows, each once, in
  an order in which the column never steps back. Which of two rows with equal
  columns comes first is the store's choice.\<close>

definition store_ordered :: "('a \<Rightarrow> 'a \<Rightarrow> bool) \<Rightarrow> 'a list \<Rightarrow> 'a list \<Rightarrow> bool" where
  "store_ordered le rows answer = (mset answer = mset rows \<and> sorted_wrt le answer)"





section \<open>Analytics\<close>






text \<open>Dates. A \<^verbatim>\<open>Date\<close> holds a time within 8.64e15 milliseconds of the epoch or is
  invalid; \<^verbatim>\<open>toISOString\<close> of an invalid date throws. \<^verbatim>\<open>setDate(getDate() - i)\<close>
  steps back \<open>i\<close> days. The \<^verbatim>\<open>YYYY-MM-DD\<close> prefix of an ISO string is the number of
  the UTC day: equal prefixes are equal days and earlier prefixes earlier days.\<close>

definition ms_per_day :: int where
  "ms_per_day = 86400000"

definition valid_date :: "timestamp \<Rightarrow> bool" where
  "valid_date t = (\<bar>t\<bar> \<le> 8640000000000000)"

definition days_back :: "timestamp \<Rightarrow> int \<Rightarrow> timestamp" where
  "days_back t i = t - i * ms_per_day"

definition utc_day :: "timestamp \<Rightarrow> int" where
  "utc_day t = t div ms_per_day"

definition iso_day :: "timestamp \<Rightarrow> int option" where
  "iso_day t = (if valid_date t then Some (utc_day t) else None)"

text \<open>\<^verbatim>\<open>parseInt(period)\<close> is an integer or \<^verbatim>\<open>NaN\<close>; the routes take the parsed
  value, \<open>None\<close> when the request has no \<^verbatim>\<open>period\<close> and the default string is parsed.\<close>

datatype js_number = NaN | Num int

definition days_ago :: "int \<Rightarrow> js_number option \<Rightarrow> js_number" where
  "days_ago dflt period = (case period of None \<Rightarrow> Num dflt | Some p \<Rightarrow> p)"

text \<open>The rows of the completion-rates query: completed, completed no earlier than the
  start, visible to the user; the store orders them by \<^verbatim>\<open>completed_at\<close>.\<close>

definition completion_rows :: "uuid \<Rightarrow> timestamp \<Rightarrow> db \<Rightarrow> task list" where
  "completion_rows userId start d =
     filter (\<lambda>t. status t = Completed
               \<and> (case completed_at t of None \<Rightarrow> False | Some c \<Rightarrow> start \<le> c)
               \<and> visible userId t) (tasks d)"

definition by_completed_at :: "task \<Rightarrow> task \<Rightarrow> bool" where
  "by_completed_at a b = nulls_last_le (completed_at a) (completed_at b)"

text \<open>The object \<^verbatim>\<open>dailyCompletions\<close> is an association list in insertion order. The
  first loop enters a zero for each of the last \<^verbatim>\<open>daysAgo\<close> days:
  \<^verbatim>\<open>
  for (let i = 0; i < daysAgo; i++) {
    const date = new Date(today);
    date.setDate(date.getDate() - i);
    const dateKey = date.toISOString().split('T')[0];
    dailyCompletions[dateKey] = 0;
  }
  \<close>\<close>

function bucket_loop :: "timestamp \<Rightarrow> int \<Rightarrow> int \<Rightarrow> (int \<times> nat) list \<Rightarrow> (int \<times> nat) list option" where
  "bucket_loop today daysAgo i dailyCompletions =
     (if i < daysAgo
      then (case iso_day (days_back today i) of
              None \<Rightarrow> None
            | Some dateKey \<Rightarrow> bucket_loop today daysAgo (i + 1) (AList.update dateKey 0 dailyCompletions))
      else Some dailyCompletions)"
  by pat_completeness auto
termination
  by (relation "measure (\<lambda>(today, daysAgo, i, acc). nat (daysAgo - i))") auto

text \<open>The second loop counts a row into the bucket of its day, when there is one.\<close>

definition count_completion :: "(int \<times> nat) list \<Rightarrow> task \<Rightarrow> (int \<times> nat) list" where
  "count_completion dailyCompletions t =
     (case completed_at t of
        None \<Rightarrow> dailyCompletions
      | Some c \<Rightarrow>
          (case map_of dailyCompletions (utc_day c) of
             None \<Rightarrow> dailyCompletions
           | Some n \<Rightarrow> AList.update (utc_day c) (n + 1) dailyCompletions))"

record completion_data =
  cr_period_days :: int
  total_completed :: nat
  daily_completions :: "(int \<times> nat) list"

text \<open>\<^verbatim>\<open>GET /analytics/completion-rates\<close>. The clock is read twice, for the start of
  the window (\<open>now\<close>) and for the buckets (\<open>today\<close>); \<open>completedTasks\<close> is the store's
  answer to the query.\<close>

definition completion_rates :: "js_number option \<Rightarrow> timestamp \<Rightarrow> timestamp \<Rightarrow> task list \<Rightarrow> completion_data response" where
  "completion_rates period now today completedTasks =
     (case days_ago 30 period of
        NaN \<Rightarrow> Failure 500 ''Failed to fetch completion rates''
      | Num daysAgo \<Rightarrow>
          (case iso_day (days_back now daysAgo) of
             None \<Rightarrow> Failure 500 ''Failed to fetch completion rates''
           | Some _ \<Rightarrow>
               (case bucket_loop today daysAgo 0 [] of
                  None \<Rightarrow> Failure 500 ''Failed to fetch completion rates''
                | Some buckets \<Rightarrow>
                    Success 200 \<lparr>cr_period_days = daysAgo,
                      total_completed = length completedTasks,
                      daily_completions = sort_key fst (foldl count_completion buckets completedTasks)\<rparr>)))"












section \<open>Auxiliary notions and sample data\<close>

fun is_success :: "'a response \<Rightarrow> bool" where
  "is_success (Success _ _) = True"
| "is_success (Failure _ _) = False"

text \<open>Whether the store knows the user an assignment names (\<^verbatim>\<open>null\<close> names none).\<close>

definition user_known :: "db \<Rightarrow> uuid option \<Rightarrow> bool" where
  "user_known d a = (case a of None \<Rightarrow> True | Some u \<Rightarrow> u \<in> set (users d))"

text \<open>A store with three users and one task, created by user 1 and assigned to user 2.\<close>

definition db0 :: db where
  "db0 = \<lparr>users = [1, 2, 3], categories = [],
     tasks = [\<lparr>task_id = 10, title = ''Plan'', description = None, status = Todo,
        priority = Medium, due_date = None, completed_at = None, category_id = None,
        created_by = 1, assigned_to = Some 2, created_at = 1000, updated_at = 1000\<rparr>]\<rparr>"

definition body0 :: task_body where
  "body0 = \<lparr>b_title = None, b_description = None, b_status = None, b_priority = None,
     b_due_date = None, b_category_id = None, b_assigned_to = None\<rparr>"

text \<open>The body \<^verbatim>\<open>{"title": "T", "status": "completed"}\<close> and the row it is stored as.\<close>

definition completed_body :: task_body where
  "completed_body = body0\<lparr>b_title := Some ''T'', b_status := Some Completed\<rparr>"

definition created_row :: task where
  "created_row = \<lparr>task_id = 11, title = ''T'', description = None, status = Completed,
     priority = Medium, due_date = None, completed_at = None, category_id = None,
     created_by = 1, assigned_to = None, created_at = 2000, updated_at = 2000\<rparr>"






text \<open>The number of the UTC day a row was completed on, and how many rows of a list were
  completed on a given day.\<close>

definition completed_day :: "task \<Rightarrow> int option" where
  "completed_day t = (case completed_at t of None \<Rightarrow> None | Some c \<Rightarrow> Some (utc_day c))"

definition completed_on :: "task list \<Rightarrow> int \<Rightarrow> nat" where
  "completed_on ts k = length (filter (\<lambda>t. completed_day t = Some k) ts)"

text \<open>Rows completed on one of the \<open>n\<close> days that end with today, and rows completed
  before the first of them.\<close>

definition in_buckets :: "timestamp \<Rightarrow> int \<Rightarrow> task \<Rightarrow> bool" where
  "in_buckets today n t =
     (case completed_day t of None \<Rightarrow> False
      | Some k \<Rightarrow> utc_day today - n + 1 \<le> k \<and> k \<le> utc_day today)"

definition before_buckets :: "timestamp \<Rightarrow> int \<Rightarrow> task \<Rightarrow> bool" where
  "before_buckets today n t =
     (case completed_day t of None \<Rightarrow> False | Some k \<Rightarrow> k < utc_day today - n + 1)"

text \<open>Sample data for the analytics: a clock at noon of day 10, a row completed on day 8
  in the afternoon, a row completed on day 9 twenty minutes after its creation.\<close>

definition t0 :: timestamp where
  "t0 = 907200000"

definition task_late :: task where
  "task_late = \<lparr>task_id = 30, title = ''late'', description = None, status = Completed,
     priority = Medium, due_date = None, completed_at = Some 741200000, category_id = None,
     created_by = 1, assigned_to = None, created_at = 700000000, updated_at = 741200000\<rparr>"

definition task_recent :: task where
  "task_recent = \<lparr>task_id = 31, title = ''recent'', description = None, status = Completed,
     priority = High, due_date = None, completed_at = Some 800000000, category_id = None,
     created_by = 1, assigned_to = None, created_at = 798800000, updated_at = 800000000\<rparr>"

definition db_late :: db where
  "db_late = \<lparr>users = [1], categories = [], tasks = [task_late, task_recent]\<rparr>"



section \<open>Properties of the store\<close>

lemma single_Inr_iff: "single xs = Inr x \<longleftrightarrow> xs = [x]"
  by (cases xs rule: single.cases) auto

lemma db_update_single_none:
  "filter sel (tasks d) = [] \<Longrightarrow> db_update_single now p sel d = (d, Inl PGRST116)"
  by (simp add: db_update_single_def)

lemma db_update_single_Inr:
  assumes "db_update_single now p sel d = (d', Inr t')"
  shows "\<exists>t. filter sel (tasks d) = [t] \<and> t' = update_row now p t \<and> p \<noteq> empty_patch \<and> fk_patch_ok d p
     \<and> d' = d\<lparr>tasks := map (\<lambda>r. if sel r then update_row now p r else r) (tasks d)\<rparr>"
  using assms
  by (auto simp: db_update_single_def Let_def single_Inr_iff map_eq_Cons_conv split: if_splits sum.splits)

lemma db_update_single_one:
  assumes "filter sel (tasks d) = [t]" "p \<noteq> empty_patch" "fk_patch_ok d p"
  shows "db_update_single now p sel d =
     (d\<lparr>tasks := map (\<lambda>r. if sel r then update_row now p r else r) (tasks d)\<rparr>, Inr (update_row now p t))"
  using assms by (simp add: db_update_single_def)

lemma db_update_single_fk:
  assumes "filter sel (tasks d) = [t]" "p \<noteq> empty_patch" "\<not> fk_patch_ok d p"
  shows "db_update_single now p sel d = (d, Inl FK_23503)"
  using assms by (simp add: db_update_single_def)


lemma update_row_completion:
  "completed_at (update_row now p old) =
     (if status (apply_patch p old) \<noteq> Completed then None
      else if status old \<noteq> Completed then Some now
      else completed_at old)"
  by (simp add: update_row_def update_updated_at_column_def set_completed_at_def apply_patch_def)

lemma update_row_status: "status (update_row now p old) = status (apply_patch p old)"
  by (simp add: update_row_def update_updated_at_column_def set_completed_at_def apply_patch_def)

lemma update_row_consistent:
  "completion_consistent old \<Longrightarrow> completion_consistent (update_row now p old)"
  by (simp add: completion_consistent_def update_row_completion update_row_status)

lemma create_task_row:
  assumes "create_task caller body new_id now d = (d', Success c t)"
  shows "completed_at t = None \<and> status t = (case b_status body of None \<Rightarrow> Todo | Some s \<Rightarrow> s)
    \<and> tasks d' = tasks d @ [t]"
  using assms
  by (auto simp: create_task_def validate_create_def db_insert_single_def Let_def new_row_def
      split: option.splits if_splits)

section \<open>Completion timestamps\<close>

text \<open>A status change that succeeds returns the row with the new status; its completion
  time is the time of the change when the row becomes completed, absent when the new
  status is another one, and kept when the row was completed already.\<close>

lemma set_status_row:
  assumes "set_status caller tid raw now d = (d', Success c t')"
  shows "\<exists>t s. parse_status raw = Some s \<and> t \<in> set (tasks d) \<and> task_id t = tid
      \<and> visible caller t \<and> status t' = s
      \<and> completed_at t' =
           (if s \<noteq> Completed then None
            else if status t \<noteq> Completed then Some now
            else completed_at t)
      \<and> (completion_consistent t \<longrightarrow> completion_consistent t')"
proof -
  from assms obtain s where s: "parse_status raw = Some s"
    and u: "db_update_single now (empty_patch\<lparr>p_status := Some s\<rparr>)
              (\<lambda>t. task_id t = tid \<and> visible caller t) d = (d', Inr t')"
    by (auto simp: set_status_def split: option.splits prod.splits sum.splits)
  from db_update_single_Inr [OF u]
  obtain t where f: "filter (\<lambda>t. task_id t = tid \<and> visible caller t) (tasks d) = [t]"
    and t': "t' = update_row now (empty_patch\<lparr>p_status := Some s\<rparr>) t"
    by auto
  have "t \<in> set (filter (\<lambda>t. task_id t = tid \<and> visible caller t) (tasks d))"
    unfolding f by simp
  then have m: "t \<in> set (tasks d)" "task_id t = tid" "visible caller t" by auto
  have a: "status (apply_patch (empty_patch\<lparr>p_status := Some s\<rparr>) t) = s"
    by (simp add: apply_patch_def)
  have st: "status t' = s"
    unfolding t' update_row_status a ..
  have c: "completed_at t' =
           (if s \<noteq> Completed then None
            else if status t \<noteq> Completed then Some now
            else completed_at t)"
    unfolding t' update_row_completion a ..
  have k: "completion_consistent t \<longrightarrow> completion_consistent t'"
    unfolding t' by (simp add: update_row_consistent)
  from s m st c k show ?thesis by blast
qed

text \<open>C1. The completion timestamp is meant to be set exactly when the status is
  \<^verbatim>\<open>completed\<close>, after every mutating operation. Updates keep this (lemmas
  \<open>update_row_consistent\<close> and \<open>set_status_row\<close>: the trigger runs before every update),
  but the trigger does not run on insertion: the body \<^verbatim>\<open>{"title": "T", "status": "completed"}\<close> passes the
  creation schema and is stored with status \<^verbatim>\<open>completed\<close> and no completion
  timestamp.\<close>

theorem create_completed_task_has_no_completed_at:
  "create_task 1 completed_body 11 2000 db0 =
     (db0\<lparr>tasks := tasks db0 @ [created_row]\<rparr>, Success 201 created_row)
   \<and> status created_row = Completed \<and> completed_at created_row = None
   \<and> \<not> completion_consistent created_row"
  by (simp add: create_task_def completed_body_def body0_def validate_create_def string_between_def
      optional_ok_def db_insert_single_def Let_def new_row_def db0_def fk_ok_def created_row_def
      completion_consistent_def)

section \<open>Access control\<close>

text \<open>C3. A caller who is neither the creator nor the assignee of the task with a given
  id (or an id that no task has) is answered 404 by the get, update, delete and
  status-change operations, with the not-found message of the operation, and the store
  is left as it was. The request is one that passes the validation preceding the store
  access: a body within the update schema, a category of the caller's own if any, one
  of the three status names.\<close>

theorem stranger_gets_not_found:
  assumes "\<forall>t \<in> set (tasks d). task_id t = tid \<longrightarrow> \<not> visible caller t"
    and "validate_update body \<noteq> None"
    and "optional_ok (\<lambda>c. category_owned caller c d) (b_category_id body)"
    and "parse_status raw \<noteq> None"
  shows "get_task caller tid d = Failure 404 ''Task not found''
    \<and> update_task caller tid body now d = (d, Failure 404 ''Task not found'')
    \<and> delete_task caller tid d = (d, Failure 404 ''Task not found or insufficient permissions'')
    \<and> set_status caller tid raw now d = (d, Failure 404 ''Task not found or insufficient permissions'')"
proof -
  have vis: "filter (\<lambda>t. task_id t = tid \<and> visible caller t) (tasks d) = []"
    using assms(1) by (auto simp: filter_empty_conv)
  have own: "filter (\<lambda>t. task_id t = tid \<and> created_by t = caller) (tasks d) = []"
    using assms(1) by (auto simp: filter_empty_conv visible_def)
  have g: "get_task caller tid d = Failure 404 ''Task not found''"
    by (simp add: get_task_def vis)
  obtain p where p: "validate_update body = Some p"
    using assms(2) by auto
  have cat: "p_category_id p = b_category_id body"
    using p by (auto simp: validate_update_def split: if_splits)
  have u: "update_task caller tid body now d = (d, Failure 404 ''Task not found'')"
    using assms(3) by (auto simp: update_task_def p cat optional_ok_def db_update_single_none [OF vis]
        split: option.splits)
  have dl: "delete_task caller tid d = (d, Failure 404 ''Task not found or insufficient permissions'')"
    by (simp add: delete_task_def own)
  obtain s where s: "parse_status raw = Some s"
    using assms(4) by auto
  have st: "set_status caller tid raw now d = (d, Failure 404 ''Task not found or insufficient permissions'')"
    by (simp add: set_status_def s db_update_single_none [OF vis])
  show ?thesis using g u dl st by simp
qed

text \<open>The task of the sample store, asked for by user 3.\<close>

theorem stranger_gets_not_found_witness:
  "(\<exists>t \<in> set (tasks db0). task_id t = 10)
   \<and> get_task 3 10 db0 = Failure 404 ''Task not found''
   \<and> update_task 3 10 (body0\<lparr>b_title := Some ''X''\<rparr>) 2000 db0 = (db0, Failure 404 ''Task not found'')
   \<and> delete_task 3 10 db0 = (db0, Failure 404 ''Task not found or insufficient permissions'')
   \<and> set_status 3 10 ''completed'' 2000 db0 = (db0, Failure 404 ''Task not found or insufficient permissions'')"
proof -
  have 1: "\<forall>t \<in> set (tasks db0). task_id t = 10 \<longrightarrow> \<not> visible 3 t"
    by (simp add: db0_def visible_def)
  have 2: "validate_update (body0\<lparr>b_title := Some ''X''\<rparr>) \<noteq> None"
    by (simp add: validate_update_def body0_def optional_ok_def string_between_def)
  have 3: "optional_ok (\<lambda>c. category_owned 3 c db0) (b_category_id (body0\<lparr>b_title := Some ''X''\<rparr>))"
    by (simp add: optional_ok_def body0_def)
  have 4: "parse_status ''completed'' \<noteq> None"
    by (simp add: parse_status_def)
  have 5: "\<exists>t \<in> set (tasks db0). task_id t = 10"
    by (simp add: db0_def)
  show ?thesis
    using stranger_gets_not_found [OF 1 2 3 4, of 2000] 5 by simp
qed

text \<open>Whatever the request carries, such a caller gets the answer an empty table would
  give, and the store stays as it was.\<close>

lemma stranger_same_as_absent:
  assumes "\<forall>t \<in> set (tasks d). task_id t = tid \<longrightarrow> \<not> visible caller t"
  shows "get_task caller tid d = get_task caller tid (d\<lparr>tasks := []\<rparr>)
    \<and> snd (update_task caller tid body now d) = snd (update_task caller tid body now (d\<lparr>tasks := []\<rparr>))
    \<and> snd (delete_task caller tid d) = snd (delete_task caller tid (d\<lparr>tasks := []\<rparr>))
    \<and> snd (set_status caller tid raw now d) = snd (set_status caller tid raw now (d\<lparr>tasks := []\<rparr>))
    \<and> fst (update_task caller tid body now d) = d
    \<and> fst (delete_task caller tid d) = d
    \<and> fst (set_status caller tid raw now d) = d"
proof -
  have vis: "filter (\<lambda>t. task_id t = tid \<and> visible caller t) (tasks d) = []"
    using assms by (auto simp: filter_empty_conv)
  have own: "filter (\<lambda>t. task_id t = tid \<and> created_by t = caller) (tasks d) = []"
    using assms by (auto simp: filter_empty_conv visible_def)
  have co: "category_owned caller c (d\<lparr>tasks := []\<rparr>) = category_owned caller c d" for c
    by (simp add: category_owned_def)
  have up: "db_update_single now p (\<lambda>t. task_id t = tid \<and> visible caller t) d = (d, Inl PGRST116)" for p
    by (rule db_update_single_none [OF vis])
  have up0: "db_update_single now p sel (d\<lparr>tasks := []\<rparr>) = (d\<lparr>tasks := []\<rparr>, Inl PGRST116)" for p sel
    by (rule db_update_single_none) simp
  have g: "get_task caller tid d = get_task caller tid (d\<lparr>tasks := []\<rparr>)"
    by (simp add: get_task_def vis)
  have u: "snd (update_task caller tid body now d) = snd (update_task caller tid body now (d\<lparr>tasks := []\<rparr>))"
    "fst (update_task caller tid body now d) = d"
    by (simp_all add: update_task_def up up0 co split: option.splits)
  have dl: "snd (delete_task caller tid d) = snd (delete_task caller tid (d\<lparr>tasks := []\<rparr>))"
    "fst (delete_task caller tid d) = d"
    by (simp_all add: delete_task_def own)
  have st: "snd (set_status caller tid raw now d) = snd (set_status caller tid raw now (d\<lparr>tasks := []\<rparr>))"
    "fst (set_status caller tid raw now d) = d"
    by (simp_all add: set_status_def up up0 split: option.splits)
  show ?thesis using g u dl st by simp
qed

text \<open>The general update selects its row by the owner-or-assignee filter: user 2, the
  assignee of the sample task and not its creator, changes its title.\<close>

theorem assignee_can_update_counterexample:
  "is_success (snd (update_task 2 10 (body0\<lparr>b_title := Some ''Hijacked''\<rparr>) 2000 db0))
   \<and> map title (tasks (fst (update_task 2 10 (body0\<lparr>b_title := Some ''Hijacked''\<rparr>) 2000 db0))) = [''Hijacked'']
   \<and> map created_by (tasks db0) = [1]"
  by (simp add: update_task_def validate_update_def body0_def optional_ok_def string_between_def
      db_update_single_def empty_patch_def Let_def db0_def visible_def fk_patch_ok_def
      update_row_def update_updated_at_column_def set_completed_at_def apply_patch_def)

text \<open>C2, as the routes have it. Deletion and assignment succeed only when the caller
  created the task; the general update succeeds only when the caller created it or is
  its assignee.\<close>

theorem mutation_rights:
  "(is_success (snd (delete_task caller tid d)) \<longrightarrow>
      (\<exists>t \<in> set (tasks d). task_id t = tid \<and> created_by t = caller))
   \<and> (is_success (snd (assign_task caller tid assignee now d)) \<longrightarrow>
      (\<exists>t \<in> set (tasks d). task_id t = tid \<and> created_by t = caller))
   \<and> (is_success (snd (update_task caller tid body now d)) \<longrightarrow>
      (\<exists>t \<in> set (tasks d). task_id t = tid \<and> (created_by t = caller \<or> assigned_to t = Some caller)))"
proof (intro conjI impI)
  assume "is_success (snd (delete_task caller tid d))"
  then obtain t where "filter (\<lambda>t. task_id t = tid \<and> created_by t = caller) (tasks d) = [t]"
    by (auto simp: delete_task_def single_Inr_iff split: sum.splits)
  then have "t \<in> set (filter (\<lambda>t. task_id t = tid \<and> created_by t = caller) (tasks d))" by simp
  then show "\<exists>t \<in> set (tasks d). task_id t = tid \<and> created_by t = caller" by auto
next
  assume "is_success (snd (assign_task caller tid assignee now d))"
  then obtain d' t' where "db_update_single now (empty_patch\<lparr>p_assigned_to := Some assignee\<rparr>)
             (\<lambda>t. task_id t = tid \<and> created_by t = caller) d = (d', Inr t')"
    by (auto simp: assign_task_def split: prod.splits sum.splits)
  from db_update_single_Inr [OF this]
  obtain t where "filter (\<lambda>t. task_id t = tid \<and> created_by t = caller) (tasks d) = [t]" by auto
  then have "t \<in> set (filter (\<lambda>t. task_id t = tid \<and> created_by t = caller) (tasks d))" by simp
  then show "\<exists>t \<in> set (tasks d). task_id t = tid \<and> created_by t = caller" by auto
next
  assume "is_success (snd (update_task caller tid body now d))"
  then obtain p d' t' where "db_update_single now p
             (\<lambda>t. task_id t = tid \<and> visible caller t) d = (d', Inr t')"
    by (auto simp: update_task_def split: option.splits if_splits prod.splits sum.splits db_error.splits)
  from db_update_single_Inr [OF this]
  obtain t where "filter (\<lambda>t. task_id t = tid \<and> visible caller t) (tasks d) = [t]" by auto
  then have "t \<in> set (filter (\<lambda>t. task_id t = tid \<and> visible caller t) (tasks d))" by simp
  then show "\<exists>t \<in> set (tasks d). task_id t = tid \<and> (created_by t = caller \<or> assigned_to t = Some caller)"
    by (auto simp: visible_def)
qed

theorem mutation_rights_witness:
  "is_success (snd (delete_task 1 10 db0))
   \<and> is_success (snd (assign_task 1 10 (Some 3) 2000 db0))
   \<and> is_success (snd (update_task 2 10 (body0\<lparr>b_title := Some ''X''\<rparr>) 2000 db0))
   \<and> (\<exists>t \<in> set (tasks db0). task_id t = 10 \<and> created_by t = 1)
   \<and> (\<exists>t \<in> set (tasks db0). task_id t = 10 \<and> (created_by t = 2 \<or> assigned_to t = Some 2))"
proof -
  have 1: "is_success (snd (delete_task 1 10 db0))"
    by (simp add: delete_task_def db0_def)
  have 2: "is_success (snd (assign_task 1 10 (Some 3) 2000 db0))"
    by (simp add: assign_task_def db_update_single_def empty_patch_def Let_def db0_def fk_patch_ok_def)
  have 3: "is_success (snd (update_task 2 10 (body0\<lparr>b_title := Some ''X''\<rparr>) 2000 db0))"
    by (simp add: update_task_def validate_update_def body0_def optional_ok_def string_between_def
      db_update_single_def empty_patch_def Let_def db0_def visible_def fk_patch_ok_def)
  show ?thesis
    using mutation_rights [of 1 10 db0 "Some 3" 2000 "body0\<lparr>b_title := Some ''X''\<rparr>"]
      mutation_rights [of 2 10 db0 "Some 3" 2000 "body0\<lparr>b_title := Some ''X''\<rparr>"] 1 2 3
    by blast
qed

section \<open>Assignment\<close>

text \<open>The route hands the assignee to the store unchecked, and the store checks it: the
  column \<^verbatim>\<open>assigned_to\<close> references \<^verbatim>\<open>auth.users(id)\<close>. The creator of the sample task
  names user 99, whom the store does not know; the answer is 404 and nothing changes.\<close>

theorem assign_unknown_user_counterexample:
  "assign_task 1 10 (Some 99) 2000 db0 = (db0, Failure 404 ''Task not found or insufficient permissions'')
   \<and> map created_by (tasks db0) = [1] \<and> map task_id (tasks db0) = [10]"
  by (simp add: assign_task_def db_update_single_def empty_patch_def Let_def db0_def fk_patch_ok_def)

text \<open>C9, as the code has it. When the caller created the task, the assignment succeeds
  exactly when the assignee is \<^verbatim>\<open>null\<close> or a user the store knows; the row is then
  returned with the new assignee. Otherwise the answer is the 404 of a missing task and
  the store is unchanged.\<close>

theorem assign_by_creator:
  assumes "filter (\<lambda>t. task_id t = tid \<and> created_by t = caller) (tasks d) = [t]"
  shows "assign_task caller tid a now d =
     (if user_known d a
      then (d\<lparr>tasks := map (\<lambda>r. if task_id r = tid \<and> created_by r = caller
                                then update_row now (empty_patch\<lparr>p_assigned_to := Some a\<rparr>) r else r) (tasks d)\<rparr>,
            Success 200 (update_row now (empty_patch\<lparr>p_assigned_to := Some a\<rparr>) t))
      else (d, Failure 404 ''Task not found or insufficient permissions''))
    \<and> assigned_to (update_row now (empty_patch\<lparr>p_assigned_to := Some a\<rparr>) t) = a"
proof -
  let ?p = "empty_patch\<lparr>p_assigned_to := Some a\<rparr>"
  have ne: "?p \<noteq> empty_patch"
    by (simp add: empty_patch_def)
  have fk: "fk_patch_ok d ?p = user_known d a"
    by (simp add: fk_patch_ok_def user_known_def empty_patch_def split: option.splits)
  have a: "assigned_to (update_row now ?p t) = a"
    by (simp add: update_row_def update_updated_at_column_def set_completed_at_def apply_patch_def)
  show ?thesis
  proof (cases "user_known d a")
    case True
    then show ?thesis
      using db_update_single_one [OF assms ne, of now] fk a by (simp add: assign_task_def)
  next
    case False
    then show ?thesis
      using db_update_single_fk [OF assms ne, of now] fk a by (simp add: assign_task_def)
  qed
qed

theorem assign_by_creator_witness:
  "is_success (snd (assign_task 1 10 (Some 3) 2000 db0))
   \<and> map assigned_to (tasks (fst (assign_task 1 10 (Some 3) 2000 db0))) = [Some 3]
   \<and> \<not> is_success (snd (assign_task 1 10 (Some 99) 2000 db0))"
proof -
  have 1: "filter (\<lambda>t. task_id t = 10 \<and> created_by t = 1) (tasks db0) = [hd (tasks db0)]"
    by (simp add: db0_def)
  have 2: "user_known db0 (Some 3)" "\<not> user_known db0 (Some 99)"
    by (simp_all add: user_known_def db0_def)
  show ?thesis
    using assign_by_creator [OF 1, of "Some 3" 2000] assign_by_creator [OF 1, of "Some 99" 2000] 2
    by (simp add: db0_def update_row_def update_updated_at_column_def set_completed_at_def apply_patch_def)
qed

section \<open>Listing\<close>




lemma validate_query_None:
  "validate_query raw = None \<longleftrightarrow>
     (\<exists>p. q_page raw = Some p \<and> p < 1) \<or> (\<exists>l. q_limit raw = Some l \<and> (l < 1 \<or> 100 < l))"
  by (auto simp: validate_query_def optional_ok_def split: option.splits)










section \<open>Overview\<close>








section \<open>Completion rates\<close>

lemma utc_day_days_back: "utc_day (days_back t i) = utc_day t - i"
proof -
  have "(t + (- i) * ms_per_day) div ms_per_day = (- i) + t div ms_per_day"
    by (rule div_mult_self1) (simp add: ms_per_day_def)
  then show ?thesis by (simp add: utc_day_def days_back_def)
qed

lemma update_absent: "k \<notin> fst ` set xs \<Longrightarrow> AList.update k v xs = xs @ [(k, v)]"
  by (induction xs) auto

lemma update_present:
  "distinct (map fst xs) \<Longrightarrow> map_of xs k = Some n \<Longrightarrow>
     AList.update k v xs = map (\<lambda>(k', c). (k', if k' = k then v else c)) xs"
proof (induction xs)
  case Nil
  then show ?case by simp
next
  case (Cons p xs)
  show ?case
  proof (cases "fst p = k")
    case True
    then have "k \<notin> fst ` set xs" using Cons.prems(1) by auto
    then have "map (\<lambda>(k', c). (k', if k' = k then v else c)) xs = xs"
      by (induction xs) auto
    then show ?thesis using True by (cases p) simp
  next
    case False
    then show ?thesis using Cons by (cases p) auto
  qed
qed

lemma bucket_loop_closed:
  assumes "\<forall>j. i \<le> j \<and> j < n \<longrightarrow> valid_date (days_back today j)"
    and "\<forall>k \<in> fst ` set acc. utc_day today - i < k"
  shows "bucket_loop today n i acc = Some (acc @ map (\<lambda>j. (utc_day today - j, 0)) [i..n - 1])"
  using assms
proof (induction today n i acc rule: bucket_loop.induct)
  case (1 today n i acc)
  show ?case
  proof (cases "i < n")
    case True
    have v: "iso_day (days_back today i) = Some (utc_day today - i)"
      using "1.prems"(1) True by (simp add: iso_day_def utc_day_days_back)
    have absent: "utc_day today - i \<notin> fst ` set acc"
      using "1.prems"(2) by auto
    have upd: "AList.update (utc_day today - i) 0 acc = acc @ [(utc_day today - i, 0)]"
      by (rule update_absent [OF absent])
    have ih: "bucket_loop today n (i + 1) (acc @ [(utc_day today - i, 0)]) =
        Some ((acc @ [(utc_day today - i, 0)]) @ map (\<lambda>j. (utc_day today - j, 0)) [i + 1..n - 1])"
    proof (rule "1.IH" [OF True v, unfolded upd])
      show "\<forall>j. i + 1 \<le> j \<and> j < n \<longrightarrow> valid_date (days_back today j)"
        using "1.prems"(1) by simp
      show "\<forall>k\<in>fst ` set (acc @ [(utc_day today - i, 0)]). utc_day today - (i + 1) < k"
        using "1.prems"(2) by auto
    qed
    have "[i..n - 1] = i # [i + 1..n - 1]"
      using True by (simp add: upto_rec1)
    then show ?thesis
      using True v upd ih by (subst bucket_loop.simps) simp
  next
    case False
    then show ?thesis by (subst bucket_loop.simps) simp
  qed
qed

lemma count_completion_step:
  assumes "distinct (map fst b)"
  shows "count_completion b t =
     map (\<lambda>(k, c). (k, c + (if completed_day t = Some k then 1 else 0))) b"
proof (cases "completed_at t")
  case None
  then show ?thesis by (simp add: count_completion_def completed_day_def)
next
  case (Some c)
  show ?thesis
  proof (cases "map_of b (utc_day c)")
    case None
    then have "utc_day c \<notin> fst ` set b" by (simp add: map_of_eq_None_iff)
    then have "map (\<lambda>(k, n). (k, n + (if Some (utc_day c) = Some k then 1 else 0))) b = b"
      by (induction b) auto
    then show ?thesis using Some None by (simp add: count_completion_def completed_day_def)
  next
    case (Some n)
    have "\<forall>p \<in> set b. fst p = utc_day c \<longrightarrow> snd p = n"
      using assms Some by (auto dest: map_of_SomeD simp: eq_key_imp_eq_value)
    then have "map (\<lambda>(k', m). (k', if k' = utc_day c then n + 1 else m)) b =
       map (\<lambda>(k, m). (k, m + (if Some (utc_day c) = Some k then 1 else 0))) b"
      by (intro map_cong) auto
    then show ?thesis
      using \<open>completed_at t = Some c\<close> Some update_present [OF assms Some, of "n + 1"]
      by (simp add: count_completion_def completed_day_def)
  qed
qed

lemma count_completion_keys:
  "distinct (map fst b) \<Longrightarrow> map fst (count_completion b t) = map fst b"
  by (simp add: count_completion_step case_prod_unfold comp_def)

lemma foldl_count_completion:
  assumes "distinct (map fst b)"
  shows "foldl count_completion b ts = map (\<lambda>(k, c). (k, c + completed_on ts k)) b"
  using assms
proof (induction ts arbitrary: b)
  case Nil
  then show ?case by (simp add: completed_on_def)
next
  case (Cons t ts)
  have d: "distinct (map fst (count_completion b t))"
    using Cons.prems by (simp add: count_completion_keys)
  have "foldl count_completion b (t # ts) = foldl count_completion (count_completion b t) ts"
    by simp
  also have "\<dots> = map (\<lambda>(k, c). (k, c + completed_on ts k)) (count_completion b t)"
    by (rule Cons.IH [OF d])
  also have "\<dots> = map (\<lambda>(k, c). (k, c + completed_on (t # ts) k)) b"
    by (simp add: count_completion_step [OF Cons.prems] completed_on_def case_prod_unfold)
  finally show ?case .
qed

lemma days_image: "(\<lambda>j. (h::int) - j) ` {0..n - 1} = {h - n + 1..h}"
proof (intro set_eqI iffI)
  fix k assume "k \<in> (\<lambda>j. h - j) ` {0..n - 1}"
  then show "k \<in> {h - n + 1..h}" by auto
next
  fix k assume k: "k \<in> {h - n + 1..h}"
  then have "h - k \<in> {0..n - 1}" by auto
  moreover have "k = h - (h - k)" by simp
  ultimately show "k \<in> (\<lambda>j. h - j) ` {0..n - 1}" by (rule rev_image_eqI)
qed

lemma sort_buckets:
  "sort_key fst (map (\<lambda>j. (h - j, f (h - j))) [0..n - 1]) = map (\<lambda>k. (k, f k)) [h - n + 1..h]"
proof (rule map_sorted_distinct_set_unique [where f = fst])
  let ?xs = "map (\<lambda>j. (h - j, f (h - j))) [0..n - 1]"
  let ?ys = "map (\<lambda>k. (k, f k)) [h - n + 1..h]"
  have sets: "set ?xs = set ?ys"
  proof -
    have "set ?xs = (\<lambda>k. (k, f k)) ` ((\<lambda>j. h - j) ` {0..n - 1})"
      by (simp only: set_map set_upto image_image)
    also have "\<dots> = (\<lambda>k. (k, f k)) ` {h - n + 1..h}"
      by (simp only: days_image)
    also have "\<dots> = set ?ys" by (simp only: set_map set_upto)
    finally show ?thesis .
  qed
  have fst_x: "map fst ?xs = map (\<lambda>j. h - j) [0..n - 1]" by (simp add: comp_def)
  have dx: "distinct (map fst ?xs)"
    unfolding fst_x by (simp add: distinct_map inj_on_def)
  show "inj_on fst (set (sort_key fst ?xs) \<union> set ?ys)"
    using sets by (auto simp: inj_on_def)
  show "sorted (map fst (sort_key fst ?xs))" by simp
  show "distinct (map fst (sort_key fst ?xs))"
    using dx by (simp add: distinct_map inj_on_def)
  show "sorted (map fst ?ys)" by (simp add: comp_def)
  show "distinct (map fst ?ys)" by (simp add: comp_def)
  show "set (sort_key fst ?xs) = set ?ys" using sets by simp
qed

lemma loop_dates_valid:
  assumes "now \<le> today" "valid_date today" "valid_date (days_back now n)"
  shows "\<forall>j. 0 \<le> j \<and> j < n \<longrightarrow> valid_date (days_back today j)"
proof (intro allI impI)
  fix j :: int assume j: "0 \<le> j \<and> j < n"
  have m: "0 < ms_per_day" by (simp add: ms_per_day_def)
  have "j * ms_per_day \<le> n * ms_per_day" using j m by simp
  moreover have "0 \<le> j * ms_per_day" using j m by simp
  ultimately show "valid_date (days_back today j)"
    using assms by (simp add: valid_date_def days_back_def abs_le_iff)
qed

lemma completion_rates_closed:
  assumes "days_ago 30 period = Num n"
    and "now \<le> today" "valid_date today" "valid_date (days_back now n)"
  shows "completion_rates period now today ts =
     Success 200 \<lparr>cr_period_days = n, total_completed = length ts,
       daily_completions = map (\<lambda>k. (k, completed_on ts k)) [utc_day today - n + 1..utc_day today]\<rparr>"
proof -
  let ?h = "utc_day today"
  let ?b = "map (\<lambda>j. (?h - j, 0::nat)) [0..n - 1]"
  have loop: "bucket_loop today n 0 [] = Some ?b"
    using bucket_loop_closed [of 0 n today "[]"] loop_dates_valid [OF assms(2,3,4)] by simp
  have d: "distinct (map fst ?b)"
    by (simp add: comp_def distinct_map inj_on_def)
  have "foldl count_completion ?b ts = map (\<lambda>j. (?h - j, completed_on ts (?h - j))) [0..n - 1]"
    by (simp add: foldl_count_completion [OF d] comp_def)
  then have "sort_key fst (foldl count_completion ?b ts) =
      map (\<lambda>k. (k, completed_on ts k)) [?h - n + 1..?h]"
    by (simp only: sort_buckets)
  then show ?thesis
    using assms(1,4) loop by (simp add: completion_rates_def iso_day_def)
qed

lemma completed_on_mset: "mset ts' = mset ts \<Longrightarrow> completed_on ts' = completed_on ts"
proof (rule ext)
  fix k assume "mset ts' = mset ts"
  then have "mset (filter (\<lambda>t. completed_day t = Some k) ts') = mset (filter (\<lambda>t. completed_day t = Some k) ts)"
    by simp
  then show "completed_on ts' k = completed_on ts k"
    unfolding completed_on_def by (rule mset_eq_length)
qed

lemma length_filter_mset: "mset xs = mset ys \<Longrightarrow> length (filter P xs) = length (filter P ys)"
proof -
  assume "mset xs = mset ys"
  then have "mset (filter P xs) = mset (filter P ys)" by simp
  then show ?thesis by (rule mset_eq_length)
qed

lemma sum_indicator_upto:
  "sum_list (map (\<lambda>k. if c = Some k then 1 else 0) [lo..hi]) =
     (case c of None \<Rightarrow> 0 | Some k \<Rightarrow> if lo \<le> k \<and> k \<le> hi then 1 else (0::nat))"
proof (cases c)
  case None
  then show ?thesis by simp
next
  case (Some k)
  have "sum_list (map (\<lambda>j. if k = j then 1 else 0) [lo..hi]) = (\<Sum>j\<in>{lo..hi}. if k = j then 1 else (0::nat))"
    by (simp add: sum_list_distinct_conv_sum_set)
  also have "\<dots> = (if lo \<le> k \<and> k \<le> hi then 1 else 0)"
    by (simp add: sum.delta')
  finally show ?thesis using Some by simp
qed

lemma sum_completed_on:
  "sum_list (map (completed_on ts) [lo..hi]) =
     length (filter (\<lambda>t. case completed_day t of None \<Rightarrow> False | Some k \<Rightarrow> lo \<le> k \<and> k \<le> hi) ts)"
proof (induction ts)
  case Nil
  then show ?case by (simp add: completed_on_def)
next
  case (Cons t ts)
  have "completed_on (t # ts) = (\<lambda>k. (if completed_day t = Some k then 1 else 0) + completed_on ts k)"
    by (rule ext) (simp add: completed_on_def)
  then have "sum_list (map (completed_on (t # ts)) [lo..hi]) =
      sum_list (map (\<lambda>k. if completed_day t = Some k then 1 else 0) [lo..hi])
        + sum_list (map (completed_on ts) [lo..hi])"
    by (simp add: sum_list_addf)
  then show ?case
    using Cons.IH by (simp add: sum_indicator_upto split: option.splits)
qed

lemma length_filter_disjoint:
  "(\<And>x. \<not> (P x \<and> Q x)) \<Longrightarrow> length (filter P xs) + length (filter Q xs) \<le> length xs"
  by (induction xs) auto

lemma t0_facts:
  "days_ago 30 (Some (Num 2)) = Num 2" "t0 \<le> t0" "valid_date t0" "valid_date (days_back t0 2)"
  by (simp_all add: days_ago_def valid_date_def days_back_def t0_def ms_per_day_def)

lemma t0_days: "[utc_day t0 - 2 + 1..utc_day t0] = [9, 10]"
proof -
  have "utc_day t0 = 10" by (simp add: utc_day_def t0_def ms_per_day_def)
  moreover have "[9..10] = [9, 10::int]" by (simp add: upto_rec_numeral)
  ultimately show ?thesis by simp
qed

lemma sample_days:
  "completed_day task_late = Some 8" "completed_day task_recent = Some 9"
  by (simp_all add: completed_day_def task_late_def task_recent_def utc_day_def ms_per_day_def)

lemma sample_rows: "completion_rows 1 (days_back t0 2) db_late = [task_late, task_recent]"
  by (simp add: completion_rows_def days_back_def t0_def ms_per_day_def db_late_def
      task_late_def task_recent_def visible_def)

text \<open>C7. The period defaults to 30 days. For a period of \<open>n\<close> days the answer has one
  bucket for each of the \<open>n\<close> UTC days that end with today, in ascending order of the
  day, each holding the number of retrieved rows completed on that day (0 when there is
  none), and the buckets are the same for every order in which the store hands the rows
  over. The clock does not run backwards between its two readings and the dates
  involved are representable.\<close>

theorem completion_rates_buckets:
  assumes "days_ago 30 period = Num n"
    and "now \<le> today" "valid_date today" "valid_date (days_back now n)"
  shows "days_ago 30 None = Num 30
    \<and> (\<exists>r. completion_rates period now today ts = Success 200 r
        \<and> cr_period_days r = n
        \<and> length (daily_completions r) = nat n
        \<and> map fst (daily_completions r) = [utc_day today - n + 1..utc_day today]
        \<and> map snd (daily_completions r) = map (completed_on ts) [utc_day today - n + 1..utc_day today]
        \<and> (\<forall>ts'. mset ts' = mset ts \<longrightarrow>
              (\<exists>r'. completion_rates period now today ts' = Success 200 r'
                 \<and> daily_completions r' = daily_completions r)))"
proof -
  let ?days = "[utc_day today - n + 1..utc_day today]"
  let ?r = "\<lambda>ts. \<lparr>cr_period_days = n, total_completed = length ts,
       daily_completions = map (\<lambda>k. (k, completed_on ts k)) ?days\<rparr>"
  have c: "completion_rates period now today xs = Success 200 (?r xs)" for xs
    by (rule completion_rates_closed [OF assms])
  have dflt: "days_ago 30 None = Num 30"
    by (simp add: days_ago_def)
  have p: "cr_period_days (?r ts) = n" by simp
  have l: "length (daily_completions (?r ts)) = nat n" by simp
  have k: "map fst (daily_completions (?r ts)) = ?days" by (simp add: comp_def)
  have v: "map snd (daily_completions (?r ts)) = map (completed_on ts) ?days" by (simp add: comp_def)
  have perm: "\<forall>ts'. mset ts' = mset ts \<longrightarrow>
      (\<exists>r'. completion_rates period now today ts' = Success 200 r'
         \<and> daily_completions r' = daily_completions (?r ts))"
  proof (intro allI impI)
    fix ts' assume "mset ts' = mset ts"
    then have "completed_on ts' = completed_on ts"
      by (rule completed_on_mset)
    then have "daily_completions (?r ts') = daily_completions (?r ts)"
      by simp
    then show "\<exists>r'. completion_rates period now today ts' = Success 200 r'
         \<and> daily_completions r' = daily_completions (?r ts)"
      using c [of ts'] by blast
  qed
  from c [of ts] p l k v perm
  have "\<exists>r. completion_rates period now today ts = Success 200 r
        \<and> cr_period_days r = n
        \<and> length (daily_completions r) = nat n
        \<and> map fst (daily_completions r) = ?days
        \<and> map snd (daily_completions r) = map (completed_on ts) ?days
        \<and> (\<forall>ts'. mset ts' = mset ts \<longrightarrow>
              (\<exists>r'. completion_rates period now today ts' = Success 200 r'
                 \<and> daily_completions r' = daily_completions r))"
    by blast
  with dflt show ?thesis by blast
qed

theorem completion_rates_buckets_witness:
  "days_ago 30 (Some (Num 2)) = Num 2 \<and> t0 \<le> t0 \<and> valid_date t0 \<and> valid_date (days_back t0 2)
   \<and> (\<exists>r. completion_rates (Some (Num 2)) t0 t0 [task_late, task_recent] = Success 200 r
         \<and> map fst (daily_completions r) = [9, 10]
         \<and> map snd (daily_completions r) = [1, 0])"
proof -
  have c: "map (completed_on [task_late, task_recent]) [9, 10] = [1, 0]"
    by (simp add: completed_on_def sample_days)
  from completion_rates_buckets [OF t0_facts, of "[task_late, task_recent]"]
  obtain r where "completion_rates (Some (Num 2)) t0 t0 [task_late, task_recent] = Success 200 r"
    and "map fst (daily_completions r) = [utc_day t0 - 2 + 1..utc_day t0]"
    and "map snd (daily_completions r) =
           map (completed_on [task_late, task_recent]) [utc_day t0 - 2 + 1..utc_day t0]"
    by (elim conjE exE) (rule that; assumption)
  then have "completion_rates (Some (Num 2)) t0 t0 [task_late, task_recent] = Success 200 r
         \<and> map fst (daily_completions r) = [9, 10]
         \<and> map snd (daily_completions r) = [1, 0]"
    unfolding t0_days c by simp
  then show ?thesis using t0_facts by (intro conjI exI [of _ r]) simp_all
qed

text \<open>C10. The bucket counts add up to the number of retrieved rows completed on one of
  the bucket days, which is at most \<open>total_completed\<close>; the rows of the window completed
  on a day before the first bucket are counted in \<open>total_completed\<close> and in no bucket.\<close>

theorem bucket_sum_at_most_total:
  assumes "days_ago 30 period = Num n"
    and "now \<le> today" "valid_date today" "valid_date (days_back now n)"
    and "store_ordered by_completed_at (completion_rows userId (days_back now n) d) ts"
  shows "\<exists>r. completion_rates period now today ts = Success 200 r
     \<and> total_completed r = length (completion_rows userId (days_back now n) d)
     \<and> sum_list (map snd (daily_completions r)) =
         length (filter (in_buckets today n) (completion_rows userId (days_back now n) d))
     \<and> sum_list (map snd (daily_completions r))
         + length (filter (before_buckets today n) (completion_rows userId (days_back now n) d))
         \<le> total_completed r"
proof -
  let ?rows = "completion_rows userId (days_back now n) d"
  let ?r = "\<lparr>cr_period_days = n, total_completed = length ts,
       daily_completions = map (\<lambda>k. (k, completed_on ts k)) [utc_day today - n + 1..utc_day today]\<rparr>"
  have c: "completion_rates period now today ts = Success 200 ?r"
    by (rule completion_rates_closed [OF assms(1-4)])
  have m: "mset ts = mset ?rows"
    using assms(5) by (simp add: store_ordered_def)
  have len: "length ts = length ?rows"
    using m by (rule mset_eq_length)
  have ib: "in_buckets today n = (\<lambda>t. case completed_day t of None \<Rightarrow> False
      | Some k \<Rightarrow> utc_day today - n + 1 \<le> k \<and> k \<le> utc_day today)"
    by (rule ext) (simp add: in_buckets_def)
  have "sum_list (map snd (daily_completions ?r)) = length (filter (in_buckets today n) ts)"
    unfolding ib by (simp add: comp_def sum_completed_on)
  then have s: "sum_list (map snd (daily_completions ?r)) = length (filter (in_buckets today n) ?rows)"
    using length_filter_mset [OF m] by simp
  have "length (filter (in_buckets today n) ?rows) + length (filter (before_buckets today n) ?rows)
      \<le> length ?rows"
    by (rule length_filter_disjoint) (auto simp: in_buckets_def before_buckets_def split: option.splits)
  then show ?thesis
    using c len s by (intro exI [of _ ?r]) simp
qed

text \<open>With two days asked at noon of day 10, the window opens at noon of day 8 and the
  buckets are days 9 and 10: the row completed in the afternoon of day 8 is in the
  total and in no bucket.\<close>

theorem bucket_sum_at_most_total_witness:
  "store_ordered by_completed_at (completion_rows 1 (days_back t0 2) db_late) [task_late, task_recent]
   \<and> filter (before_buckets t0 2) (completion_rows 1 (days_back t0 2) db_late) = [task_late]
   \<and> (\<exists>r. completion_rates (Some (Num 2)) t0 t0 [task_late, task_recent] = Success 200 r
         \<and> total_completed r = 2
         \<and> sum_list (map snd (daily_completions r)) = 1)"
proof -
  have u: "utc_day t0 = 10" by (simp add: utc_day_def t0_def ms_per_day_def)
  have o: "store_ordered by_completed_at (completion_rows 1 (days_back t0 2) db_late) [task_late, task_recent]"
    using sample_rows by (simp add: store_ordered_def by_completed_at_def task_late_def task_recent_def)
  have b: "filter (before_buckets t0 2) (completion_rows 1 (days_back t0 2) db_late) = [task_late]"
    using sample_rows by (simp add: before_buckets_def sample_days u)
  have i: "filter (in_buckets t0 2) (completion_rows 1 (days_back t0 2) db_late) = [task_recent]"
    using sample_rows by (simp add: in_buckets_def sample_days u)
  have n: "length (completion_rows 1 (days_back t0 2) db_late) = 2"
    using sample_rows by simp
  from bucket_sum_at_most_total [OF t0_facts o]
  have "\<exists>r. completion_rates (Some (Num 2)) t0 t0 [task_late, task_recent] = Success 200 r
         \<and> total_completed r = 2
         \<and> sum_list (map snd (daily_completions r)) = 1"
    unfolding i n by auto
  then show ?thesis using o b by blast
qed

section \<open>Productivity\<close>








end
